theory Spec2Isabelle
  imports Complex_Main "HOL-Library.Signed_Division"
begin

section \<open>The image codec (FreeImage) as the loader sees it\<close>

text \<open>
  \<^verbatim>\<open>loader.c\<close> drives the FreeImage library. The library is outside the repository, so
  its bitmaps are kept symbolic: a bitmap is either something the decoder produced
  (\<open>Decoded\<close>, with an identifier for its pixels and its size) or the result of one of
  the library calls the loader makes on bitmaps. Nothing is assumed about pixels; only the
  size of a result is computed, as the library documents it (a conversion keeps the size,
  \<open>FreeImage_Allocate\<close> gives the size asked for, \<open>FreeImage_Paste\<close> keeps the
  destination, \<open>FreeImage_Composite\<close> has the size of the foreground).

  A C pointer that may be \<open>NULL\<close> is an \<open>option\<close>. The library accepts \<open>NULL\<close>
  bitmaps: the size of \<open>NULL\<close> is 0 and a conversion of \<open>NULL\<close> is \<open>NULL\<close>.
  The C \<open>int\<close> fields are \<open>int\<close>; the only arithmetic on them is
  \<open>(cur_frame + 1) % num_frames\<close>, written with the truncating remainder \<open>smod\<close>
  (in the states the loader reaches \<open>cur_frame\<close> is below \<open>num_frames\<close>, so the
  addition stays in range). The \<open>double\<close> field \<open>frame_time\<close> is a \<open>real\<close>:
  rounding and NaN are not modelled.
\<close>

datatype FREE_IMAGE_FORMAT = FIF_UNKNOWN | FIF_GIF | FIF_JPEG | FIF_OTHER nat

datatype FIBITMAP =
    Decoded nat int int
  | To32Bits FIBITMAP
  | To24Bits FIBITMAP
  | Allocated int int
  | Pasted FIBITMAP FIBITMAP int int
  | Composited FIBITMAP FIBITMAP

fun dib_width :: "FIBITMAP \<Rightarrow> int" where
  "dib_width (Decoded i w h) = w"
| "dib_width (To32Bits b) = dib_width b"
| "dib_width (To24Bits b) = dib_width b"
| "dib_width (Allocated w h) = w"
| "dib_width (Pasted dst src x y) = dib_width dst"
| "dib_width (Composited fg bg) = dib_width fg"

fun dib_height :: "FIBITMAP \<Rightarrow> int" where
  "dib_height (Decoded i w h) = h"
| "dib_height (To32Bits b) = dib_height b"
| "dib_height (To24Bits b) = dib_height b"
| "dib_height (Allocated w h) = h"
| "dib_height (Pasted dst src x y) = dib_height dst"
| "dib_height (Composited fg bg) = dib_height fg"

definition FreeImage_GetWidth :: "FIBITMAP option \<Rightarrow> int" where
  "FreeImage_GetWidth dib = (case dib of None \<Rightarrow> 0 | Some b \<Rightarrow> dib_width b)"

definition FreeImage_GetHeight :: "FIBITMAP option \<Rightarrow> int" where
  "FreeImage_GetHeight dib = (case dib of None \<Rightarrow> 0 | Some b \<Rightarrow> dib_height b)"

definition FreeImage_ConvertTo32Bits :: "FIBITMAP option \<Rightarrow> FIBITMAP option" where
  "FreeImage_ConvertTo32Bits dib = map_option To32Bits dib"

definition FreeImage_ConvertTo24Bits :: "FIBITMAP option \<Rightarrow> FIBITMAP option" where
  "FreeImage_ConvertTo24Bits dib = map_option To24Bits dib"

definition FreeImage_Allocate :: "int \<Rightarrow> int \<Rightarrow> FIBITMAP option" where
  "FreeImage_Allocate w h = Some (Allocated w h)"

text \<open>\<open>FreeImage_Paste\<close> writes into its destination; the value is the destination
  after the call. With no source (or no destination) the call fails and changes nothing.\<close>

definition FreeImage_Paste ::
  "FIBITMAP option \<Rightarrow> FIBITMAP option \<Rightarrow> int \<Rightarrow> int \<Rightarrow> FIBITMAP option" where
  "FreeImage_Paste dst src x y =
     (case (dst, src) of
        (Some d, Some s) \<Rightarrow> Some (Pasted d s x y)
      | _ \<Rightarrow> dst)"

definition FreeImage_Composite :: "FIBITMAP option \<Rightarrow> FIBITMAP option \<Rightarrow> FIBITMAP option" where
  "FreeImage_Composite fg bg =
     (case (fg, bg) of
        (Some f, Some b) \<Rightarrow> Some (Composited f b)
      | _ \<Rightarrow> None)"

text \<open>A page of a multi-page bitmap: its pixels and the animation metadata tags the
  loader reads. A tag that is absent is \<open>None\<close>.\<close>

record FIPAGE =
  page_dib :: FIBITMAP
  FrameTime :: "int option"
  DisposalMethod :: "int option"
  FrameLeft :: "int option"
  FrameTop :: "int option"

type_synonym FIMULTIBITMAP = "FIPAGE list"

type_synonym BYTE = char

type_synonym FIMEMORY = "BYTE list"

definition FreeImage_GetPageCount :: "FIMULTIBITMAP \<Rightarrow> int" where
  "FreeImage_GetPageCount m = int (length m)"

definition FreeImage_LockPage :: "FIMULTIBITMAP option \<Rightarrow> int \<Rightarrow> FIPAGE option" where
  "FreeImage_LockPage m page =
     (case m of
        None \<Rightarrow> None
      | Some pages \<Rightarrow>
          if 0 \<le> page \<and> page < int (length pages) then Some (pages ! nat page) else None)"

definition frame_dib :: "FIPAGE option \<Rightarrow> FIBITMAP option" where
  "frame_dib frame = map_option page_dib frame"

text \<open>\<open>FreeImage_GetMetadata\<close> followed by \<open>FreeImage_GetTagValue\<close>: the value of
  a tag of a locked page, \<open>None\<close> when the page or the tag is missing.\<close>

definition tag_value :: "FIPAGE option \<Rightarrow> (FIPAGE \<Rightarrow> int option) \<Rightarrow> int option" where
  "tag_value frame key = (case frame of None \<Rightarrow> None | Some p \<Rightarrow> key p)"

definition FreeImage_OpenMemory :: "BYTE list \<Rightarrow> nat \<Rightarrow> FIMEMORY" where
  "FreeImage_OpenMemory data size_in_bytes = take size_in_bytes data"

text \<open>What the decoder answers for a file or a memory buffer is an input of the model.\<close>

record codec =
  GetFileType :: "string \<Rightarrow> FREE_IMAGE_FORMAT"
  GetFileTypeFromMemory :: "FIMEMORY option \<Rightarrow> FREE_IMAGE_FORMAT"
  OpenMultiBitmap :: "string \<Rightarrow> FIMULTIBITMAP option"
  LoadMultiBitmapFromMemory :: "FIMEMORY option \<Rightarrow> FIMULTIBITMAP option"
  Load :: "FREE_IMAGE_FORMAT \<Rightarrow> string \<Rightarrow> int \<Rightarrow> FIBITMAP option"
  LoadFromMemory :: "FREE_IMAGE_FORMAT \<Rightarrow> FIMEMORY option \<Rightarrow> int \<Rightarrow> FIBITMAP option"

definition JPEG_EXIFROTATE :: int where
  "JPEG_EXIFROTATE = 8"

definition PATH_MAX :: nat where
  "PATH_MAX = 4096"

section \<open>The loader state and its events\<close>

text \<open>
  \<open>struct imv_loader\<close>. The mutex and the thread handle are not fields of the model: a
  worker is a function that the caller of the model runs, every block of the source that
  holds the lock is applied as a whole, and the signal \<open>SIGUSR1\<close> that
  \<open>imv_loader_load\<close> sends to the running worker is the answer that worker gets from
  \<open>is_thread_cancelled\<close>, an input of the worker. The two registered SDL event types are
  the two constructors of \<open>SDL_Event\<close>.
\<close>

record imv_loader =
  path :: string
  buffer :: "BYTE list"
  buffer_size :: nat
  fi_buffer :: "FIMEMORY option"
  mbmp :: "FIMULTIBITMAP option"
  bmp :: "FIBITMAP option"
  width :: int
  height :: int
  cur_frame :: int
  next_frame :: int
  num_frames :: int
  frame_time :: real

record imv_bitmap =
  bitmap_width :: int
  bitmap_height :: int
  bitmap_data :: "FIBITMAP option"

datatype SDL_Event =
    new_image_event imv_bitmap int
  | bad_image_event string

datatype resource =
    Memory FIMEMORY
  | MultiBitmap FIMULTIBITMAP
  | Bitmap FIBITMAP

definition to_imv_bitmap :: "FIBITMAP option \<Rightarrow> imv_bitmap" where
  "to_imv_bitmap in_bmp =
     \<lparr> bitmap_width = FreeImage_GetWidth in_bmp,
       bitmap_height = FreeImage_GetHeight in_bmp,
       bitmap_data = in_bmp \<rparr>"

definition error_occurred :: "imv_loader \<Rightarrow> SDL_Event" where
  "error_occurred ldr = bad_image_event (path ldr)"


text \<open>Closing or unloading a \<open>NULL\<close> handle releases nothing.\<close>

definition FreeImage_CloseMemory :: "FIMEMORY option \<Rightarrow> resource list" where
  "FreeImage_CloseMemory m = (case m of None \<Rightarrow> [] | Some x \<Rightarrow> [Memory x])"

definition FreeImage_CloseMultiBitmap :: "FIMULTIBITMAP option \<Rightarrow> resource list" where
  "FreeImage_CloseMultiBitmap m = (case m of None \<Rightarrow> [] | Some x \<Rightarrow> [MultiBitmap x])"

definition FreeImage_Unload :: "FIBITMAP option \<Rightarrow> resource list" where
  "FreeImage_Unload b = (case b of None \<Rightarrow> [] | Some x \<Rightarrow> [Bitmap x])"

section \<open>The control thread\<close>

text \<open>\<open>imv_loader_create\<close> zeroes the structure (the \<open>NULL\<close> path is the empty
  string here: no worker runs before \<open>imv_loader_load\<close> has stored a path).\<close>

definition imv_loader_create :: imv_loader where
  "imv_loader_create =
     \<lparr> path = [], buffer = [], buffer_size = 0, fi_buffer = None, mbmp = None, bmp = None,
       width = 0, height = 0, cur_frame = 0, next_frame = 0, num_frames = 0,
       frame_time = 0 \<rparr>"


text \<open>\<open>imv_loader_load\<close>: store the request. \<open>strncmp(path, "-", 2) == 0\<close> holds
  exactly for the path \<open>"-"\<close>. The signal to the running worker and the new thread are
  outside the state (see above).\<close>

definition imv_loader_load :: "imv_loader \<Rightarrow> string \<Rightarrow> BYTE list \<Rightarrow> nat \<Rightarrow> imv_loader" where
  "imv_loader_load ldr p buf n =
     (let ldr1 = ldr\<lparr>path := p\<rparr>
      in if p = ''-'' then ldr1\<lparr>buffer := buf, buffer_size := n\<rparr>
         else ldr1\<lparr>fi_buffer := None\<rparr>)"

text \<open>\<open>imv_loader_time_passed\<close>: the new state and \<open>get_frame\<close>, that is whether
  \<open>imv_loader_load_next_frame\<close> is called.\<close>

definition imv_loader_time_passed :: "imv_loader \<Rightarrow> real \<Rightarrow> imv_loader \<times> bool" where
  "imv_loader_time_passed ldr dt =
     (if num_frames ldr > 1 then
        (let ldr1 = ldr\<lparr>frame_time := frame_time ldr - dt\<rparr>
         in (ldr1, frame_time ldr1 < 0))
      else (ldr\<lparr>frame_time := 0\<rparr>, False))"

definition imv_loader_time_left :: "imv_loader \<Rightarrow> real" where
  "imv_loader_time_left ldr = frame_time ldr"

section \<open>The worker that loads a new image\<close>

text \<open>Lines 168 to 175 of \<open>bg_new_img\<close>: the worker's copy of the path (cut to
  \<open>PATH_MAX - 1\<close> characters by \<open>snprintf\<close>) and \<open>from_stdin\<close>.\<close>

definition bg_new_img_begin :: "imv_loader \<Rightarrow> string \<times> bool" where
  "bg_new_img_begin ldr =
     (let from_stdin = (path ldr = ''-'')
      in (if from_stdin then ''-'' else take (PATH_MAX - 1) (path ldr), from_stdin))"

text \<open>The locals of \<open>bg_new_img\<close> when it reaches \<open>/* now update the loader */\<close>.\<close>

record new_img =
  new_mbmp :: "FIMULTIBITMAP option"
  new_bmp :: "FIBITMAP option"
  new_width :: int
  new_height :: int
  new_num_frames :: int
  raw_frame_time :: int

type_synonym outcome = "imv_loader \<times> SDL_Event list \<times> resource list"

text \<open>
  Lines 177 to 270: format detection and decoding. \<open>Inl\<close> is an early \<open>return NULL\<close>
  (the state, the events pushed and the handles released so far); \<open>Inr\<close> goes on to the
  update of the loader. \<open>cancelled\<close> is what \<open>is_thread_cancelled\<close> answers before the
  pixel format is converted. In the branch of a single image the source reads the size
  from the local \<open>bmp\<close>, which is still \<open>NULL\<close> there.
\<close>

definition bg_new_img_decode ::
  "codec \<Rightarrow> bool \<Rightarrow> string \<Rightarrow> bool \<Rightarrow> imv_loader
     \<Rightarrow> outcome + (imv_loader \<times> new_img \<times> resource list)" where
  "bg_new_img_decode fi cancelled lpath from_stdin ldr =
     (let ldr1 = (if from_stdin
                  then ldr\<lparr>fi_buffer := Some (FreeImage_OpenMemory (buffer ldr) (buffer_size ldr))\<rparr>
                  else ldr);
          fmt = (if from_stdin then GetFileTypeFromMemory fi (fi_buffer ldr1)
                 else GetFileType fi lpath)
      in if fmt = FIF_UNKNOWN then
           (if from_stdin
            then Inl (ldr1\<lparr>fi_buffer := None\<rparr>, [error_occurred ldr1],
                      FreeImage_CloseMemory (fi_buffer ldr1))
            else Inl (ldr1, [error_occurred ldr1], []))
         else if fmt = FIF_GIF then
           (case (if from_stdin then LoadMultiBitmapFromMemory fi (fi_buffer ldr1)
                  else OpenMultiBitmap fi lpath) of
              None \<Rightarrow> Inl (ldr1, [error_occurred ldr1], [])
            | Some m \<Rightarrow>
                (let frame = FreeImage_LockPage (Some m) 0
                 in Inr (ldr1,
                      \<lparr> new_mbmp = Some m,
                        new_bmp = FreeImage_ConvertTo32Bits (frame_dib frame),
                        new_width = FreeImage_GetWidth (frame_dib frame),
                        new_height = FreeImage_GetHeight (frame_dib frame),
                        new_num_frames = FreeImage_GetPageCount m,
                        raw_frame_time =
                          (case tag_value frame FrameTime of Some v \<Rightarrow> v | None \<Rightarrow> 100) \<rparr>,
                      [])))
         else
           (let flags = (if fmt = FIF_JPEG then JPEG_EXIFROTATE else 0)
            in case (if from_stdin then LoadFromMemory fi fmt (fi_buffer ldr1) flags
                     else Load fi fmt lpath flags) of
                 None \<Rightarrow> Inl (ldr1\<lparr>fi_buffer := None\<rparr>, [error_occurred ldr1],
                              FreeImage_CloseMemory (fi_buffer ldr1))
               | Some img \<Rightarrow>
                   if cancelled then Inl (ldr1, [], FreeImage_Unload (Some img))
                   else
                     (let bmp0 = None
                      in Inr (ldr1,
                           \<lparr> new_mbmp = None,
                             new_bmp = FreeImage_ConvertTo32Bits (Some img),
                             new_width = FreeImage_GetWidth bmp0,
                             new_height = FreeImage_GetHeight bmp0,
                             new_num_frames = 1,
                             raw_frame_time = 0 \<rparr>,
                           FreeImage_Unload (Some img)))))"

text \<open>Lines 272 to 314: the update of the loader, with the lock held. \<open>cancelled\<close> is
  what \<open>is_thread_cancelled\<close> answers there.\<close>

definition bg_new_img_install :: "bool \<Rightarrow> new_img \<Rightarrow> imv_loader \<Rightarrow> outcome" where
  "bg_new_img_install cancelled d ldr =
     (if cancelled then
        (ldr, [], FreeImage_CloseMultiBitmap (new_mbmp d) @ FreeImage_Unload (new_bmp d))
      else
        (ldr\<lparr> mbmp := new_mbmp d,
              bmp := new_bmp d,
              width := new_width d,
              height := new_height d,
              cur_frame := 0,
              next_frame := 1,
              num_frames := new_num_frames d,
              frame_time := real_of_int (raw_frame_time d) * 0.0001 \<rparr>,
         [new_image_event (to_imv_bitmap (new_bmp d)) 1],
         FreeImage_CloseMultiBitmap (mbmp ldr) @ FreeImage_Unload (bmp ldr)))"

text \<open>The worker from line 177 on, for a given copy of the path, and the whole worker.
  \<open>c1\<close> and \<open>c2\<close> are the two answers of \<open>is_thread_cancelled\<close>.\<close>

definition bg_new_img_resume ::
  "codec \<Rightarrow> bool \<Rightarrow> bool \<Rightarrow> string \<times> bool \<Rightarrow> imv_loader \<Rightarrow> outcome" where
  "bg_new_img_resume fi c1 c2 loc ldr =
     (case bg_new_img_decode fi c1 (fst loc) (snd loc) ldr of
        Inl out \<Rightarrow> out
      | Inr (ldr1, d, rel) \<Rightarrow>
          (case bg_new_img_install c2 d ldr1 of
             (ldr2, evs, rel2) \<Rightarrow> (ldr2, evs, rel @ rel2)))"

definition bg_new_img :: "codec \<Rightarrow> bool \<Rightarrow> bool \<Rightarrow> imv_loader \<Rightarrow> outcome" where
  "bg_new_img fi c1 c2 ldr = bg_new_img_resume fi c1 c2 (bg_new_img_begin ldr) ldr"

section \<open>The worker that advances the animation\<close>

text \<open>
  \<open>bg_next_frame\<close>, which runs with the lock held from start to end. \<open>%\<close> of C
  truncates, so it is \<open>smod\<close>. \<open>disposal_method\<close> is read for frames after the first
  only; a \<open>switch\<close> value other than 0, 1, 2, 3 matches no case and leaves \<open>bmp\<close> as it
  is. The bitmaps unloaded on the way are not recorded here.
\<close>

definition bg_next_frame :: "imv_loader \<Rightarrow> imv_loader \<times> SDL_Event list" where
  "bg_next_frame ldr =
     (if num_frames ldr < 2 then (ldr, [])
      else
        (let ldr1 = ldr\<lparr>cur_frame := next_frame ldr\<rparr>;
             ldr2 = ldr1\<lparr>next_frame := (cur_frame ldr1 + 1) smod num_frames ldr1\<rparr>;
             frame = FreeImage_LockPage (mbmp ldr2) (cur_frame ldr2);
             frame32 = FreeImage_ConvertTo32Bits (frame_dib frame);
             disposal_method =
               (if cur_frame ldr2 > 0
                then (case tag_value frame DisposalMethod of Some v \<Rightarrow> v | None \<Rightarrow> 0)
                else 0);
             left = (case tag_value frame FrameLeft of Some v \<Rightarrow> v | None \<Rightarrow> 0);
             topp = (case tag_value frame FrameTop of Some v \<Rightarrow> v | None \<Rightarrow> 0);
             ft0 = (case tag_value frame FrameTime of Some v \<Rightarrow> v | None \<Rightarrow> 0);
             ft = (if ft0 = 0 then 100 else ft0);
             ldr3 = ldr2\<lparr>frame_time := frame_time ldr2 + real_of_int ft * 0.001\<rparr>;
             frame32e =
               (if width ldr3 \<noteq> FreeImage_GetWidth frame32 \<or>
                   height ldr3 \<noteq> FreeImage_GetHeight frame32
                then FreeImage_Paste (FreeImage_Allocate (width ldr3) (height ldr3))
                       frame32 left topp
                else frame32);
             ldr4 =
               (if disposal_method = 0 \<or> disposal_method = 1 then
                  (if bmp ldr3 \<noteq> None \<and> cur_frame ldr3 > 0 then
                     (let bg_frame = FreeImage_ConvertTo24Bits (bmp ldr3)
                      in ldr3\<lparr>bmp := FreeImage_Composite frame32e bg_frame\<rparr>)
                   else ldr3\<lparr>bmp := frame32e\<rparr>)
                else if disposal_method = 2 then ldr3\<lparr>bmp := frame32e\<rparr>
                else if disposal_method = 3 then ldr3\<lparr>bmp := frame32e\<rparr>
                else ldr3)
         in (ldr4, [new_image_event (to_imv_bitmap (bmp ldr4)) 0])))"

text \<open>
  A run of \<open>imv_loader_time_passed\<close> calls, one per element of the list. A call that
  sets \<open>get_frame\<close> goes on to \<open>imv_loader_load_next_frame\<close>, which joins the worker
  that is running and starts \<open>bg_next_frame\<close>; that worker is run to its end here. The
  second component counts the \<open>bg_next_frame\<close> workers started.
\<close>

fun time_passed_all :: "imv_loader \<Rightarrow> real list \<Rightarrow> imv_loader \<times> nat" where
  "time_passed_all ldr [] = (ldr, 0)"
| "time_passed_all ldr (dt # dts) =
     (case imv_loader_time_passed ldr dt of
        (ldr1, get_frame) \<Rightarrow>
          (case time_passed_all (if get_frame then fst (bg_next_frame ldr1) else ldr1) dts of
             (ldr2, k) \<Rightarrow> (ldr2, (if get_frame then Suc k else k))))"

section \<open>Notions used to state the properties\<close>

definition events_of :: "outcome \<Rightarrow> SDL_Event list" where
  "events_of out = fst (snd out)"

definition released_of :: "outcome \<Rightarrow> resource list" where
  "released_of out = snd (snd out)"

text \<open>The failures the worker tests for: the decoder does not know the format, or it
  knows it and returns no multi-page bitmap (GIF) or no image (any other format). A first
  frame that cannot be locked is a decoding failure too, but not one of these.\<close>

definition load_fails :: "codec \<Rightarrow> string \<Rightarrow> bool \<Rightarrow> imv_loader \<Rightarrow> bool" where
  "load_fails fi lpath from_stdin ldr =
     (let mem = Some (FreeImage_OpenMemory (buffer ldr) (buffer_size ldr));
          fmt = (if from_stdin then GetFileTypeFromMemory fi mem else GetFileType fi lpath);
          flags = (if fmt = FIF_JPEG then JPEG_EXIFROTATE else 0)
      in fmt = FIF_UNKNOWN \<or>
         (fmt = FIF_GIF \<and>
            (if from_stdin then LoadMultiBitmapFromMemory fi mem
             else OpenMultiBitmap fi lpath) = None) \<or>
         (fmt \<noteq> FIF_GIF \<and>
            (if from_stdin then LoadFromMemory fi fmt mem flags
             else Load fi fmt lpath flags) = None))"





text \<open>The duration of a frame in milliseconds as the specification has it: the
  \<open>FrameTime\<close> tag, and 100 when the tag is absent or zero.\<close>

definition duration_ms :: "FIPAGE option \<Rightarrow> int" where
  "duration_ms frame =
     (case tag_value frame FrameTime of
        None \<Rightarrow> 100
      | Some v \<Rightarrow> if v = 0 then 100 else v)"

text \<open>The disposal methods of the specification and the value of the
  \<open>DisposalMethod\<close> tag that stands for each; a frame without the tag is
  \<open>Unspecified\<close>, and a tag value other than 0, 1, 2, 3 is none of them.\<close>

datatype disposal = Unspecified | CompositeOverPrevious | RestoreToBackground | RestoreToPrevious

definition disposal_of :: "int option \<Rightarrow> disposal option" where
  "disposal_of t =
     (case t of
        None \<Rightarrow> Some Unspecified
      | Some v \<Rightarrow>
          if v = 0 then Some Unspecified
          else if v = 1 then Some CompositeOverPrevious
          else if v = 2 then Some RestoreToBackground
          else if v = 3 then Some RestoreToPrevious
          else None)"

text \<open>The frame at canvas size as the specification has it: the frame at 32 bits,
  pasted at its offset into a new bitmap of the canvas size when its size differs.\<close>

definition expand_to_canvas :: "FIBITMAP \<Rightarrow> int \<Rightarrow> int \<Rightarrow> int \<Rightarrow> int \<Rightarrow> FIBITMAP" where
  "expand_to_canvas f w h x y =
     (if dib_width f = w \<and> dib_height f = h then f
      else Pasted (Allocated w h) f x y)"

definition frame_offset :: "int option \<Rightarrow> int" where
  "frame_offset t = (case t of None \<Rightarrow> 0 | Some v \<Rightarrow> v)"

text \<open>Two loader states show the same image: the animation source, the canvas, the
  size, the frame indices, the number of frames and the frame time are equal.\<close>

definition same_image_state :: "imv_loader \<Rightarrow> imv_loader \<Rightarrow> bool" where
  "same_image_state a b \<longleftrightarrow>
     mbmp a = mbmp b \<and> bmp a = bmp b \<and> width a = width b \<and> height a = height b \<and>
     cur_frame a = cur_frame b \<and> next_frame a = next_frame b \<and>
     num_frames a = num_frames b \<and> frame_time a = frame_time b"

text \<open>The relation between the frame indices, for an animation of two frames or more.\<close>

definition frame_inv :: "imv_loader \<Rightarrow> bool" where
  "frame_inv ldr \<longleftrightarrow>
     (2 \<le> num_frames ldr \<longrightarrow>
        0 \<le> cur_frame ldr \<and> cur_frame ldr < num_frames ldr \<and>
        next_frame ldr = (cur_frame ldr + 1) mod num_frames ldr)"

text \<open>An animation of two frames or more has its multi-page bitmap open, with as many
  pages as the loader counts frames.\<close>

definition source_inv :: "imv_loader \<Rightarrow> bool" where
  "source_inv ldr \<longleftrightarrow>
     (2 \<le> num_frames ldr \<longrightarrow>
        (\<exists>m. mbmp ldr = Some m \<and> int (length m) = num_frames ldr))"

text \<open>The loader states that the operations of the source can produce, starting from
  \<open>imv_loader_create\<close>. A worker may resume with a copy of the path taken before a
  later \<open>imv_loader_load\<close>, so its copy is arbitrary.\<close>

inductive reachable :: "imv_loader \<Rightarrow> bool" where
  reach_create: "reachable imv_loader_create"
| reach_load: "reachable ldr \<Longrightarrow> reachable (imv_loader_load ldr p buf n)"
| reach_new_img: "reachable ldr \<Longrightarrow> reachable (fst (bg_new_img_resume fi c1 c2 loc ldr))"
| reach_next_frame: "reachable ldr \<Longrightarrow> reachable (fst (bg_next_frame ldr))"
| reach_time_passed: "reachable ldr \<Longrightarrow> reachable (fst (imv_loader_time_passed ldr dt))"

section \<open>Concrete inputs\<close>

text \<open>A decoder that knows no format, one that decodes every file as a 640 by 480 PNG,
  and one that opens every file as a GIF of three frames on a canvas of 64 by 48: the first
  lasts 100 ms, the second 200 ms and replaces the canvas, the third has no delay tag and
  is an inset of 20 by 10 at (5, 7) to be composited.\<close>

definition unknown_codec :: codec where
  "unknown_codec =
     \<lparr> GetFileType = (\<lambda>p. FIF_UNKNOWN), GetFileTypeFromMemory = (\<lambda>m. FIF_UNKNOWN),
       OpenMultiBitmap = (\<lambda>p. None), LoadMultiBitmapFromMemory = (\<lambda>m. None),
       Load = (\<lambda>f p fl. None), LoadFromMemory = (\<lambda>f m fl. None) \<rparr>"

definition png_codec :: codec where
  "png_codec =
     \<lparr> GetFileType = (\<lambda>p. FIF_OTHER 13), GetFileTypeFromMemory = (\<lambda>m. FIF_OTHER 13),
       OpenMultiBitmap = (\<lambda>p. None), LoadMultiBitmapFromMemory = (\<lambda>m. None),
       Load = (\<lambda>f p fl. Some (Decoded 7 640 480)),
       LoadFromMemory = (\<lambda>f m fl. Some (Decoded 7 640 480)) \<rparr>"

definition gif_pages :: FIMULTIBITMAP where
  "gif_pages =
     [ \<lparr> page_dib = Decoded 0 64 48, FrameTime = Some 100, DisposalMethod = None,
         FrameLeft = None, FrameTop = None \<rparr>,
       \<lparr> page_dib = Decoded 1 64 48, FrameTime = Some 200, DisposalMethod = Some 2,
         FrameLeft = Some 0, FrameTop = Some 0 \<rparr>,
       \<lparr> page_dib = Decoded 2 20 10, FrameTime = None, DisposalMethod = Some 1,
         FrameLeft = Some 5, FrameTop = Some 7 \<rparr> ]"

definition gif_codec :: codec where
  "gif_codec =
     \<lparr> GetFileType = (\<lambda>p. FIF_GIF), GetFileTypeFromMemory = (\<lambda>m. FIF_GIF),
       OpenMultiBitmap = (\<lambda>p. Some gif_pages),
       LoadMultiBitmapFromMemory = (\<lambda>m. Some gif_pages),
       Load = (\<lambda>f p fl. None), LoadFromMemory = (\<lambda>f m fl. None) \<rparr>"

text \<open>A decoder that fails on the file \<open>a.bad\<close> only.\<close>

definition picky_codec :: codec where
  "picky_codec =
     png_codec\<lparr> GetFileType := (\<lambda>p. if p = ''a.bad'' then FIF_UNKNOWN else FIF_OTHER 13) \<rparr>"

definition loaded_png :: imv_loader where
  "loaded_png =
     fst (bg_new_img png_codec False False (imv_loader_load imv_loader_create ''a.png'' [] 0))"

definition loaded_gif :: imv_loader where
  "loaded_gif =
     fst (bg_new_img gif_codec False False (imv_loader_load imv_loader_create ''a.gif'' [] 0))"

text \<open>The GIF after a tick of 0.15 s, and after its first frame advance.\<close>

definition ticked_gif :: imv_loader where
  "ticked_gif = fst (imv_loader_time_passed loaded_gif 0.15)"

definition second_frame_gif :: imv_loader where
  "second_frame_gif = fst (bg_next_frame loaded_gif)"

text \<open>The PNG is shown and a load of another file has been requested.\<close>

definition superseding_load :: imv_loader where
  "superseding_load = imv_loader_load loaded_png ''b.gif'' [] 0"


text \<open>A decoder that opens every file as a GIF without a page, so that the first frame
  cannot be locked; and the GIF of three frames is shown when a load of such a file is
  requested.\<close>

definition headless_gif_codec :: codec where
  "headless_gif_codec =
     gif_codec\<lparr> OpenMultiBitmap := (\<lambda>p. Some []),
                 LoadMultiBitmapFromMemory := (\<lambda>m. Some []) \<rparr>"

definition headless_load :: imv_loader where
  "headless_load = imv_loader_load loaded_gif ''b.gif'' [] 0"


section \<open>Evaluation of the concrete inputs\<close>

lemmas codec_defs = FreeImage_GetWidth_def FreeImage_GetHeight_def FreeImage_ConvertTo32Bits_def
  FreeImage_ConvertTo24Bits_def FreeImage_Allocate_def FreeImage_Paste_def FreeImage_Composite_def
  FreeImage_GetPageCount_def FreeImage_LockPage_def frame_dib_def tag_value_def
  FreeImage_OpenMemory_def FreeImage_CloseMemory_def FreeImage_CloseMultiBitmap_def
  FreeImage_Unload_def JPEG_EXIFROTATE_def PATH_MAX_def

lemmas new_img_defs = bg_new_img_def bg_new_img_resume_def bg_new_img_begin_def
  bg_new_img_decode_def bg_new_img_install_def error_occurred_def to_imv_bitmap_def

lemmas input_defs = imv_loader_create_def imv_loader_load_def unknown_codec_def png_codec_def
  gif_codec_def gif_pages_def picky_codec_def

lemma loaded_png_eq:
  "loaded_png =
     \<lparr> path = ''a.png'', buffer = [], buffer_size = 0, fi_buffer = None, mbmp = None,
       bmp = Some (To32Bits (Decoded 7 640 480)), width = 0, height = 0, cur_frame = 0,
       next_frame = 1, num_frames = 1, frame_time = 0 \<rparr>"
  by (simp add: loaded_png_def new_img_defs codec_defs input_defs)

lemma loaded_gif_eq:
  "loaded_gif =
     \<lparr> path = ''a.gif'', buffer = [], buffer_size = 0, fi_buffer = None,
       mbmp = Some gif_pages,
       bmp = Some (To32Bits (Decoded 0 64 48)), width = 64, height = 48, cur_frame = 0,
       next_frame = 1, num_frames = 3, frame_time = 1 / 100 \<rparr>"
  by (simp add: loaded_gif_def new_img_defs codec_defs input_defs)

lemma reachable_loaded_gif: "reachable loaded_gif"
  unfolding loaded_gif_def bg_new_img_def
  by (intro reach_new_img reach_load reach_create)

lemma ticked_gif_eq:
  "ticked_gif = loaded_gif\<lparr> frame_time := - (14 / 100) \<rparr>"
  by (simp add: ticked_gif_def imv_loader_time_passed_def loaded_gif_eq)

lemma second_frame_gif_eq:
  "second_frame_gif =
     loaded_gif\<lparr> bmp := Some (To32Bits (Decoded 1 64 48)), cur_frame := 1, next_frame := 2,
                 frame_time := 21 / 100 \<rparr>"
  by (simp add: second_frame_gif_def bg_next_frame_def Let_def loaded_gif_eq gif_pages_def
      codec_defs signed_modulo_int_def)

lemma superseding_load_eq: "superseding_load = loaded_png\<lparr> path := ''b.gif'' \<rparr>"
  by (simp add: superseding_load_def imv_loader_load_def loaded_png_eq)


lemma headless_load_eq: "headless_load = loaded_gif\<lparr> path := ''b.gif'' \<rparr>"
  by (simp add: headless_load_def imv_loader_load_def loaded_gif_eq)

section \<open>The size installed for a single image\<close>

text \<open>
  C1. A successful load of a single-frame image should install the width and height of
  the decoded bitmap. The source reads them from the local \<open>bmp\<close> before \<open>bmp\<close> is
  assigned: for a 640 by 480 PNG the worker pushes the new-image event with a bitmap of
  640 by 480, the canvas is 640 by 480, and the width and height installed are 0.
\<close>

theorem single_image_size_not_installed:
  "events_of (bg_new_img png_codec False False
                (imv_loader_load imv_loader_create ''a.png'' [] 0))
     = [new_image_event \<lparr> bitmap_width = 640, bitmap_height = 480,
                           bitmap_data = Some (To32Bits (Decoded 7 640 480)) \<rparr> 1] \<and>
   FreeImage_GetWidth (bmp loaded_png) = 640 \<and> FreeImage_GetHeight (bmp loaded_png) = 480 \<and>
   width loaded_png = 0 \<and> height loaded_png = 0"
  by (simp add: loaded_png_eq events_of_def new_img_defs codec_defs input_defs)

section \<open>The time of the first frame\<close>

text \<open>
  C2. A successful load of a multi-frame image should install frame 0's duration in
  seconds, that is its milliseconds divided by 1000. The source multiplies by 0.0001:
  for a GIF of three frames whose first frame lasts 100 ms the time installed is 0.01 s,
  not 0.1 s.
\<close>

theorem first_frame_time_scaled_by_ten_thousand:
  "tag_value (FreeImage_LockPage (mbmp loaded_gif) 0) FrameTime = Some 100 \<and>
   num_frames loaded_gif = 3 \<and>
   frame_time loaded_gif = 1 / 100 \<and>
   frame_time loaded_gif \<noteq> 100 / 1000"
  by (simp add: loaded_gif_eq codec_defs gif_pages_def)

section \<open>The frame indices\<close>

lemma smod_nonneg: "0 \<le> a \<Longrightarrow> 0 < b \<Longrightarrow> (a::int) smod b = a mod b"
  by (simp add: signed_modulo_int_def sgn_if)

lemma decode_Inl_keeps_frames:
  "bg_new_img_decode fi c lp fs ldr = Inl (ldr', evs, rel) \<Longrightarrow>
     num_frames ldr' = num_frames ldr \<and> cur_frame ldr' = cur_frame ldr \<and>
     next_frame ldr' = next_frame ldr"
  by (auto simp: bg_new_img_decode_def Let_def split: if_splits option.splits)

lemma decode_Inr_keeps_frames:
  "bg_new_img_decode fi c lp fs ldr = Inr (ldr', d, rel) \<Longrightarrow>
     num_frames ldr' = num_frames ldr \<and> cur_frame ldr' = cur_frame ldr \<and>
     next_frame ldr' = next_frame ldr"
  by (auto simp: bg_new_img_decode_def Let_def split: if_splits option.splits)

lemma install_frame_inv: "frame_inv ldr \<Longrightarrow> frame_inv (fst (bg_new_img_install c d ldr))"
  by (simp add: bg_new_img_install_def frame_inv_def)

lemma resume_frame_inv:
  "frame_inv ldr \<Longrightarrow> frame_inv (fst (bg_new_img_resume fi c1 c2 loc ldr))"
proof (cases "bg_new_img_decode fi c1 (fst loc) (snd loc) ldr")
  case (Inl out)
  assume inv: "frame_inv ldr"
  obtain l e r where out: "out = (l, e, r)" by (cases out)
  from decode_Inl_keeps_frames [OF Inl [unfolded out]] inv have "frame_inv l"
    by (simp add: frame_inv_def)
  with Inl out show ?thesis by (simp add: bg_new_img_resume_def)
next
  case (Inr x)
  assume inv: "frame_inv ldr"
  obtain l d r where x: "x = (l, d, r)" by (cases x)
  from decode_Inr_keeps_frames [OF Inr [unfolded x]] inv have "frame_inv l"
    by (simp add: frame_inv_def)
  then have "frame_inv (fst (bg_new_img_install c2 d l))" by (rule install_frame_inv)
  with Inr x show ?thesis
    by (cases "bg_new_img_install c2 d l") (simp add: bg_new_img_resume_def)
qed

lemma next_frame_frame_inv: "frame_inv ldr \<Longrightarrow> frame_inv (fst (bg_next_frame ldr))"
proof (cases "num_frames ldr < 2")
  case True
  assume "frame_inv ldr"
  with True show ?thesis by (simp add: bg_next_frame_def)
next
  case False
  assume inv: "frame_inv ldr"
  let ?n = "num_frames ldr"
  let ?c = "next_frame ldr"
  from False inv have c: "0 \<le> ?c" "?c < ?n" and n: "2 \<le> ?n"
    by (simp_all add: frame_inv_def)
  have nf: "num_frames (fst (bg_next_frame ldr)) = ?n"
    and cf: "cur_frame (fst (bg_next_frame ldr)) = ?c"
    and xf: "next_frame (fst (bg_next_frame ldr)) = (?c + 1) smod ?n"
    using False by (simp_all add: bg_next_frame_def Let_def)
  from c n have "(?c + 1) smod ?n = (?c + 1) mod ?n" by (intro smod_nonneg) simp_all
  with nf cf xf c show ?thesis by (simp add: frame_inv_def)
qed

lemma reachable_frame_inv: "reachable ldr \<Longrightarrow> frame_inv ldr"
proof (induction rule: reachable.induct)
  case reach_create
  show ?case by (simp add: frame_inv_def imv_loader_create_def)
next
  case (reach_load ldr p buf n)
  then show ?case by (simp add: frame_inv_def imv_loader_load_def Let_def)
next
  case (reach_new_img ldr fi c1 c2 loc)
  then show ?case by (simp add: resume_frame_inv)
next
  case (reach_next_frame ldr)
  then show ?case by (simp add: next_frame_frame_inv)
next
  case (reach_time_passed ldr dt)
  then show ?case by (simp add: frame_inv_def imv_loader_time_passed_def Let_def)
qed

text \<open>
  C3, as stated, fails for a static image: the worker installs \<open>cur_frame = 0\<close> and
  \<open>next_frame = 1\<close> whatever the number of frames, and \<open>(0 + 1) mod 1 = 0\<close>.
\<close>

theorem static_install_counterexample:
  "num_frames loaded_png = 1 \<and>
   next_frame loaded_png \<noteq> (cur_frame loaded_png + 1) mod num_frames loaded_png"
  by (simp add: loaded_png_eq)

text \<open>
  C3, amended. In every state the loader can reach from its creation (by loads, by
  new-image workers with any outcome, by frame advances and by time ticks), if the
  number of frames is at least 2 then \<open>next_frame = (cur_frame + 1) mod num_frames\<close>.
  So the relation holds after the install of a multi-frame image and after every frame
  advance.
\<close>

theorem next_frame_invariant:
  "reachable ldr \<Longrightarrow> 2 \<le> num_frames ldr \<Longrightarrow>
     next_frame ldr = (cur_frame ldr + 1) mod num_frames ldr"
  using reachable_frame_inv [of ldr] by (simp add: frame_inv_def)

theorem next_frame_invariant_witness:
  "reachable (fst (bg_next_frame loaded_gif)) \<and>
   2 \<le> num_frames (fst (bg_next_frame loaded_gif)) \<and>
   cur_frame (fst (bg_next_frame loaded_gif)) = 1 \<and>
   next_frame (fst (bg_next_frame loaded_gif)) = 2 \<and>
   next_frame (fst (bg_next_frame loaded_gif)) =
     (cur_frame (fst (bg_next_frame loaded_gif)) + 1)
       mod num_frames (fst (bg_next_frame loaded_gif))"
proof -
  have r: "reachable (fst (bg_next_frame loaded_gif))"
    using reachable_loaded_gif by (rule reach_next_frame)
  have n: "num_frames (fst (bg_next_frame loaded_gif)) = 3"
    and c: "cur_frame (fst (bg_next_frame loaded_gif)) = 1"
    by (simp_all add: loaded_gif_eq bg_next_frame_def Let_def)
  from n have n2: "2 \<le> num_frames (fst (bg_next_frame loaded_gif))" by simp
  from next_frame_invariant [OF r n2] r n c show ?thesis by simp
qed


section \<open>Failing and cancelled workers\<close>

lemma decode_fails:
  "load_fails fi lp fs ldr \<Longrightarrow>
     \<exists>ldr' rel.
       bg_new_img_decode fi c lp fs ldr = Inl (ldr', [bad_image_event (path ldr)], rel) \<and>
       same_image_state ldr ldr'"
  by (auto simp: load_fails_def bg_new_img_decode_def error_occurred_def same_image_state_def
      Let_def split: if_splits option.splits)

lemma decode_succeeds:
  "\<not> load_fails fi lp fs ldr \<Longrightarrow>
     (\<exists>ldr' rel. bg_new_img_decode fi c lp fs ldr = Inl (ldr', [], rel) \<and> c \<and>
                 same_image_state ldr ldr') \<or>
     (\<exists>ldr' d rel. bg_new_img_decode fi c lp fs ldr = Inr (ldr', d, rel) \<and>
                 same_image_state ldr ldr')"
  by (auto simp: load_fails_def bg_new_img_decode_def same_image_state_def
      Let_def split: if_splits option.splits)

lemma resume_fails:
  assumes "load_fails fi (fst loc) (snd loc) ldr"
  shows "events_of (bg_new_img_resume fi c1 c2 loc ldr) = [bad_image_event (path ldr)]"
    and "same_image_state ldr (fst (bg_new_img_resume fi c1 c2 loc ldr))"
proof -
  from decode_fails [OF assms, of c1] obtain ldr' rel where
    d: "bg_new_img_decode fi c1 (fst loc) (snd loc) ldr =
          Inl (ldr', [bad_image_event (path ldr)], rel)"
    and s: "same_image_state ldr ldr'" by blast
  from d show "events_of (bg_new_img_resume fi c1 c2 loc ldr) = [bad_image_event (path ldr)]"
    by (simp add: bg_new_img_resume_def events_of_def)
  from d s show "same_image_state ldr (fst (bg_new_img_resume fi c1 c2 loc ldr))"
    by (simp add: bg_new_img_resume_def)
qed

lemma resume_cancelled_at_install:
  assumes "bg_new_img_decode fi c1 (fst loc) (snd loc) ldr = Inr (ldr1, d, rel)"
  shows "bg_new_img_resume fi c1 True loc ldr =
           (ldr1, [],
            rel @ FreeImage_CloseMultiBitmap (new_mbmp d) @ FreeImage_Unload (new_bmp d))"
  using assms by (simp add: bg_new_img_resume_def bg_new_img_install_def)


lemma superseding_gif_decodes:
  "bg_new_img_decode gif_codec False (fst (bg_new_img_begin superseding_load))
       (snd (bg_new_img_begin superseding_load)) superseding_load =
     Inr (superseding_load,
          \<lparr> new_mbmp = Some gif_pages, new_bmp = Some (To32Bits (Decoded 0 64 48)),
            new_width = 64, new_height = 48, new_num_frames = 3, raw_frame_time = 100 \<rparr>,
          [])"
  by (simp add: superseding_load_eq loaded_png_eq bg_new_img_begin_def bg_new_img_decode_def
      gif_codec_def gif_pages_def codec_defs)













text \<open>
  C5. A new-image worker that has decoded its image (\<open>bg_new_img_decode\<close> returns
  \<open>Inr\<close>) and finds cancellation signalled at the poll made with the lock held leaves
  the loader as it was before that poll, with the animation source, the canvas, the size,
  the frame indices, the number of frames and the frame time as they were when the worker
  started; it pushes no event and releases the multi-page bitmap and the bitmap it created.
\<close>

theorem cancelled_install_leaves_state:
  "bg_new_img_decode fi c1 (fst loc) (snd loc) ldr = Inr (ldr1, d, rel) \<Longrightarrow>
     fst (bg_new_img_resume fi c1 True loc ldr) = ldr1 \<and>
     same_image_state ldr (fst (bg_new_img_resume fi c1 True loc ldr)) \<and>
     events_of (bg_new_img_resume fi c1 True loc ldr) = [] \<and>
     (\<forall>m. new_mbmp d = Some m \<longrightarrow>
        MultiBitmap m \<in> set (released_of (bg_new_img_resume fi c1 True loc ldr))) \<and>
     (\<forall>b. new_bmp d = Some b \<longrightarrow>
        Bitmap b \<in> set (released_of (bg_new_img_resume fi c1 True loc ldr)))"
proof -
  assume d: "bg_new_img_decode fi c1 (fst loc) (snd loc) ldr = Inr (ldr1, d, rel)"
  have s: "same_image_state ldr ldr1"
  proof (cases "load_fails fi (fst loc) (snd loc) ldr")
    case True
    from decode_fails [OF True, of c1] d show ?thesis by auto
  next
    case False
    from decode_succeeds [OF False, of c1] d show ?thesis by auto
  qed
  from resume_cancelled_at_install [OF d] s show ?thesis
    by (auto simp: events_of_def released_of_def FreeImage_CloseMultiBitmap_def
        FreeImage_Unload_def)
qed

theorem cancelled_install_leaves_state_witness:
  "fst (bg_new_img gif_codec False True superseding_load) = superseding_load \<and>
   bmp (fst (bg_new_img gif_codec False True superseding_load)) = bmp loaded_png \<and>
   num_frames (fst (bg_new_img gif_codec False True superseding_load)) = 1 \<and>
   events_of (bg_new_img gif_codec False True superseding_load) = [] \<and>
   MultiBitmap gif_pages \<in> set (released_of (bg_new_img gif_codec False True superseding_load)) \<and>
   Bitmap (To32Bits (Decoded 0 64 48))
     \<in> set (released_of (bg_new_img gif_codec False True superseding_load))"
  using cancelled_install_leaves_state [OF superseding_gif_decodes]
  by (simp add: bg_new_img_def superseding_load_eq loaded_png_eq)

text \<open>The three failures the worker tests for are reported by exactly one bad-image
  event, and the animation source, the canvas, the size, the frame indices, the number of
  frames and the frame time of the loader stay as they were.\<close>

lemma tested_failure_reports_once:
  "load_fails fi (fst loc) (snd loc) ldr \<Longrightarrow>
     events_of (bg_new_img_resume fi c1 c2 loc ldr) = [bad_image_event (path ldr)] \<and>
     same_image_state ldr (fst (bg_new_img_resume fi c1 c2 loc ldr))"
  using resume_fails [of fi loc ldr c1 c2] by simp

lemma tested_failure_example:
  "load_fails unknown_codec (fst (bg_new_img_begin superseding_load))
     (snd (bg_new_img_begin superseding_load)) superseding_load \<and>
   events_of (bg_new_img unknown_codec False False superseding_load)
     = [bad_image_event ''b.gif''] \<and>
   same_image_state loaded_png (fst (bg_new_img unknown_codec False False superseding_load))"
proof -
  have f: "load_fails unknown_codec (fst (bg_new_img_begin superseding_load))
     (snd (bg_new_img_begin superseding_load)) superseding_load"
    by (simp add: load_fails_def unknown_codec_def bg_new_img_begin_def superseding_load_eq)
  from tested_failure_reports_once [OF f, of False False] f show ?thesis
    by (simp add: bg_new_img_def superseding_load_eq same_image_state_def)
qed

text \<open>
  C6. Every load whose format detection or decoding fails should push exactly one
  bad-image event and leave the previously loaded image as it was. The source tests the
  multi-page bitmap and the single image for \<open>NULL\<close>, but not the first frame of a GIF:
  when the GIF opens and its first frame cannot be locked, the worker pushes a new-image
  event with an empty bitmap of 0 by 0, pushes no bad-image event, and replaces the
  animation that was shown by a loader without canvas and without frames.
\<close>

theorem unlocked_first_frame_not_reported:
  "OpenMultiBitmap headless_gif_codec ''b.gif'' = Some [] \<and>
   FreeImage_LockPage (OpenMultiBitmap headless_gif_codec ''b.gif'') 0 = None \<and>
   events_of (bg_new_img headless_gif_codec False False headless_load) =
     [new_image_event \<lparr> bitmap_width = 0, bitmap_height = 0, bitmap_data = None \<rparr> 1] \<and>
   bmp loaded_gif = Some (To32Bits (Decoded 0 64 48)) \<and>
   num_frames loaded_gif = 3 \<and>
   bmp (fst (bg_new_img headless_gif_codec False False headless_load)) = None \<and>
   mbmp (fst (bg_new_img headless_gif_codec False False headless_load)) = Some [] \<and>
   num_frames (fst (bg_new_img headless_gif_codec False False headless_load)) = 0 \<and>
   \<not> same_image_state loaded_gif
        (fst (bg_new_img headless_gif_codec False False headless_load))"
  by (simp add: headless_load_eq loaded_gif_eq headless_gif_codec_def gif_codec_def
      events_of_def same_image_state_def new_img_defs codec_defs)

text \<open>
  C10. The bad-image event carries the path stored in the loader when the error is
  reported. A worker takes its copy of the path when it starts; if
  \<open>imv_loader_load\<close> then stores the path \<open>p\<close> of a newer request and the worker fails
  on its own file, the event it pushes names \<open>p\<close>.
\<close>

theorem failure_names_current_path:
  "load_fails fi (fst (bg_new_img_begin ldr)) (snd (bg_new_img_begin ldr))
       (imv_loader_load ldr p buf n) \<Longrightarrow>
     events_of (bg_new_img_resume fi c1 c2 (bg_new_img_begin ldr) (imv_loader_load ldr p buf n))
       = [bad_image_event p]"
proof -
  assume f: "load_fails fi (fst (bg_new_img_begin ldr)) (snd (bg_new_img_begin ldr))
       (imv_loader_load ldr p buf n)"
  have "path (imv_loader_load ldr p buf n) = p" by (simp add: imv_loader_load_def Let_def)
  with resume_fails(1) [OF f, of c1 c2] show ?thesis by simp
qed

theorem failure_names_current_path_witness:
  "bg_new_img_begin (imv_loader_load imv_loader_create ''a.bad'' [] 0) = (''a.bad'', False) \<and>
   GetFileType picky_codec ''a.bad'' = FIF_UNKNOWN \<and>
   GetFileType picky_codec ''b.png'' \<noteq> FIF_UNKNOWN \<and>
   events_of (bg_new_img_resume picky_codec True True
                (bg_new_img_begin (imv_loader_load imv_loader_create ''a.bad'' [] 0))
                (imv_loader_load (imv_loader_load imv_loader_create ''a.bad'' [] 0)
                   ''b.png'' [] 0))
     = [bad_image_event ''b.png'']"
proof -
  have b: "bg_new_img_begin (imv_loader_load imv_loader_create ''a.bad'' [] 0)
             = (''a.bad'', False)"
    by (simp add: bg_new_img_begin_def input_defs PATH_MAX_def)
  have f: "load_fails picky_codec
             (fst (bg_new_img_begin (imv_loader_load imv_loader_create ''a.bad'' [] 0)))
             (snd (bg_new_img_begin (imv_loader_load imv_loader_create ''a.bad'' [] 0)))
             (imv_loader_load (imv_loader_load imv_loader_create ''a.bad'' [] 0)
                ''b.png'' [] 0)"
    by (simp add: b load_fails_def picky_codec_def png_codec_def)
  from failure_names_current_path [OF f, of True True] b show ?thesis
    by (simp add: picky_codec_def png_codec_def)
qed


section \<open>Time ticks\<close>

lemma time_passed_static:
  "num_frames ldr \<le> 1 \<Longrightarrow> imv_loader_time_passed ldr dt = (ldr\<lparr>frame_time := 0\<rparr>, False)"
  by (simp add: imv_loader_time_passed_def)

lemma time_passed_all_static:
  "num_frames ldr \<le> 1 \<Longrightarrow>
     time_passed_all ldr dts = ((if dts = [] then ldr else ldr\<lparr>frame_time := 0\<rparr>), 0)"
proof (induction dts arbitrary: ldr)
  case Nil
  show ?case by simp
next
  case (Cons dt dts)
  have "num_frames (ldr\<lparr>frame_time := 0\<rparr>) \<le> 1" using Cons.prems by simp
  from Cons.IH [OF this] Cons.prems show ?case
    by (simp add: time_passed_static)
qed

text \<open>
  C7. With more than one frame, \<open>imv_loader_time_passed\<close> subtracts \<open>dt\<close> from the
  frame time and asks for the next frame exactly when the result is below zero. With one
  frame or none it sets the frame time to 0 and never asks for a frame; over any run of
  calls no \<open>bg_next_frame\<close> worker is started, and the time left is 0 after the first
  call (and from the start if it was 0).
\<close>

theorem time_passed_behaviour:
  "(1 < num_frames ldr \<longrightarrow>
      frame_time (fst (imv_loader_time_passed ldr dt)) = frame_time ldr - dt \<and>
      (snd (imv_loader_time_passed ldr dt) \<longleftrightarrow> frame_time ldr - dt < 0)) \<and>
   (num_frames ldr \<le> 1 \<longrightarrow>
      frame_time (fst (imv_loader_time_passed ldr dt)) = 0 \<and>
      \<not> snd (imv_loader_time_passed ldr dt) \<and>
      snd (time_passed_all ldr dts) = 0 \<and>
      (dts \<noteq> [] \<or> frame_time ldr = 0 \<longrightarrow>
         imv_loader_time_left (fst (time_passed_all ldr dts)) = 0))"
proof (intro conjI impI)
  assume "1 < num_frames ldr"
  then show "frame_time (fst (imv_loader_time_passed ldr dt)) = frame_time ldr - dt"
    and "snd (imv_loader_time_passed ldr dt) \<longleftrightarrow> frame_time ldr - dt < 0"
    by (simp_all add: imv_loader_time_passed_def Let_def)
next
  assume s: "num_frames ldr \<le> 1"
  then show "frame_time (fst (imv_loader_time_passed ldr dt)) = 0"
    and "\<not> snd (imv_loader_time_passed ldr dt)"
    by (simp_all add: time_passed_static)
  from s show "snd (time_passed_all ldr dts) = 0"
    by (simp add: time_passed_all_static)
  assume "dts \<noteq> [] \<or> frame_time ldr = 0"
  with s show "imv_loader_time_left (fst (time_passed_all ldr dts)) = 0"
    by (auto simp: time_passed_all_static imv_loader_time_left_def)
qed

theorem time_passed_behaviour_witness:
  "1 < num_frames loaded_gif \<and>
   frame_time (fst (imv_loader_time_passed loaded_gif (15 / 100))) = - (14 / 100) \<and>
   snd (imv_loader_time_passed loaded_gif (15 / 100)) \<and>
   \<not> snd (imv_loader_time_passed loaded_gif (1 / 1000)) \<and>
   num_frames loaded_png \<le> 1 \<and>
   snd (time_passed_all loaded_png [1, 2, 3]) = 0 \<and>
   imv_loader_time_left (fst (time_passed_all loaded_png [1, 2, 3])) = 0"
proof -
  have g: "1 < num_frames loaded_gif" and gt: "frame_time loaded_gif = 1 / 100"
    by (simp_all add: loaded_gif_eq)
  have p: "num_frames loaded_png \<le> 1" by (simp add: loaded_png_eq)
  from time_passed_behaviour [of loaded_gif "15 / 100" "[]"]
    time_passed_behaviour [of loaded_gif "1 / 1000" "[]"]
    time_passed_behaviour [of loaded_png 1 "[1, 2, 3]"] g gt p
  show ?thesis by simp
qed

section \<open>Frame advances\<close>

lemma next_frame_time:
  "2 \<le> num_frames ldr \<Longrightarrow>
     frame_time (fst (bg_next_frame ldr)) =
       frame_time ldr +
       real_of_int (duration_ms (FreeImage_LockPage (mbmp ldr) (next_frame ldr))) * 0.001"
  by (simp add: bg_next_frame_def Let_def duration_ms_def split: option.splits)

lemma next_frame_cur:
  "2 \<le> num_frames ldr \<Longrightarrow> cur_frame (fst (bg_next_frame ldr)) = next_frame ldr"
  by (simp add: bg_next_frame_def Let_def)

lemma next_frame_bmp:
  assumes n: "2 \<le> num_frames ldr"
    and pg: "FreeImage_LockPage (mbmp ldr) (next_frame ldr) = Some pg"
    and v: "v = (if 0 < next_frame ldr then frame_offset (DisposalMethod pg) else 0)"
    and f: "f = expand_to_canvas (To32Bits (page_dib pg)) (width ldr) (height ldr)
                 (frame_offset (FrameLeft pg)) (frame_offset (FrameTop pg))"
  shows "bmp (fst (bg_next_frame ldr)) =
     (if v = 0 \<or> v = 1 then
        (if bmp ldr \<noteq> None \<and> 0 < next_frame ldr
         then FreeImage_Composite (Some f) (FreeImage_ConvertTo24Bits (bmp ldr))
         else Some f)
      else if v = 2 \<or> v = 3 then Some f
      else bmp ldr)"
proof -
  have t: "tag_value (Some pg) k = k pg" for k by (simp add: tag_value_def)
  have o: "(case k of None \<Rightarrow> 0 | Some x \<Rightarrow> x) = frame_offset k" for k
    by (simp add: frame_offset_def)
  have d: "FreeImage_ConvertTo32Bits (frame_dib (Some pg)) = Some (To32Bits (page_dib pg))"
    by (simp add: FreeImage_ConvertTo32Bits_def frame_dib_def)
  show ?thesis
    using n
    by (auto simp: bg_next_frame_def Let_def pg t o d v f expand_to_canvas_def
        FreeImage_GetWidth_def FreeImage_GetHeight_def FreeImage_Paste_def
        FreeImage_Allocate_def)
qed

lemma second_frame_gif_page:
  "FreeImage_LockPage (mbmp second_frame_gif) (next_frame second_frame_gif) =
     Some \<lparr> page_dib = Decoded 2 20 10, FrameTime = None, DisposalMethod = Some 1,
            FrameLeft = Some 5, FrameTop = Some 7 \<rparr>"
  by (simp add: second_frame_gif_eq loaded_gif_eq gif_pages_def FreeImage_LockPage_def)

text \<open>
  C8. A frame advance of an animation of two frames or more makes \<open>next_frame\<close> the
  current frame and adds that frame's duration to the frame time, whatever its sign:
  the \<open>FrameTime\<close> tag in milliseconds divided by 1000, with 100 ms for a tag that is
  absent or zero, so that such a frame adds exactly 0.1 s.
\<close>

theorem frame_advance_time:
  "2 \<le> num_frames ldr \<Longrightarrow>
     cur_frame (fst (bg_next_frame ldr)) = next_frame ldr \<and>
     frame_time (fst (bg_next_frame ldr)) =
       frame_time ldr +
       real_of_int (duration_ms (FreeImage_LockPage (mbmp ldr) (next_frame ldr))) / 1000 \<and>
     (tag_value (FreeImage_LockPage (mbmp ldr) (next_frame ldr)) FrameTime \<in> {None, Some 0} \<longrightarrow>
        frame_time (fst (bg_next_frame ldr)) = frame_time ldr + 0.1)"
proof (intro conjI impI)
  assume n: "2 \<le> num_frames ldr"
  then show "cur_frame (fst (bg_next_frame ldr)) = next_frame ldr"
    by (rule next_frame_cur)
  from next_frame_time [OF n]
  show t: "frame_time (fst (bg_next_frame ldr)) =
       frame_time ldr +
       real_of_int (duration_ms (FreeImage_LockPage (mbmp ldr) (next_frame ldr))) / 1000"
    by simp
  assume "tag_value (FreeImage_LockPage (mbmp ldr) (next_frame ldr)) FrameTime \<in> {None, Some 0}"
  then have "duration_ms (FreeImage_LockPage (mbmp ldr) (next_frame ldr)) = 100"
    by (auto simp: duration_ms_def)
  with t show "frame_time (fst (bg_next_frame ldr)) = frame_time ldr + 0.1" by simp
qed

theorem frame_advance_time_witness:
  "2 \<le> num_frames ticked_gif \<and> frame_time ticked_gif = - (14 / 100) \<and>
   cur_frame (fst (bg_next_frame ticked_gif)) = 1 \<and>
   frame_time (fst (bg_next_frame ticked_gif)) = 6 / 100 \<and>
   2 \<le> num_frames second_frame_gif \<and>
   tag_value (FreeImage_LockPage (mbmp second_frame_gif) (next_frame second_frame_gif)) FrameTime
     = None \<and>
   frame_time (fst (bg_next_frame second_frame_gif)) = frame_time second_frame_gif + 1 / 10"
proof -
  have n1: "2 \<le> num_frames ticked_gif" and n2: "2 \<le> num_frames second_frame_gif"
    by (simp_all add: ticked_gif_eq second_frame_gif_eq loaded_gif_eq)
  have p1: "FreeImage_LockPage (mbmp ticked_gif) (next_frame ticked_gif) =
     Some \<lparr> page_dib = Decoded 1 64 48, FrameTime = Some 200, DisposalMethod = Some 2,
            FrameLeft = Some 0, FrameTop = Some 0 \<rparr>"
    by (simp add: ticked_gif_eq loaded_gif_eq gif_pages_def FreeImage_LockPage_def)
  have t1: "frame_time ticked_gif = - (14 / 100)" and x1: "next_frame ticked_gif = 1"
    by (simp_all add: ticked_gif_eq loaded_gif_eq)
  from frame_advance_time [OF n1] frame_advance_time [OF n2] n1 n2 p1 t1 x1
    second_frame_gif_page
  show ?thesis by (simp add: duration_ms_def tag_value_def)
qed

text \<open>
  C9. A frame advance of an animation of two frames or more computes the new canvas from
  the disposal method of the new current frame. The frame is taken at 32 bits and, when
  its size differs from the canvas size, pasted at its offset into a new bitmap of the
  canvas size. For \<open>Unspecified\<close> or \<open>CompositeOverPrevious\<close>, with a previous canvas
  and a current frame after the first, the new canvas is that frame composited over the
  previous canvas converted to 24 bits. For \<open>RestoreToBackground\<close> and
  \<open>RestoreToPrevious\<close>, without a previous canvas, or for the first frame, the new
  canvas is that frame.
\<close>

theorem frame_advance_canvas:
  assumes n: "2 \<le> num_frames ldr"
    and pg: "FreeImage_LockPage (mbmp ldr) (next_frame ldr) = Some pg"
    and dm: "0 < next_frame ldr \<longrightarrow> disposal_of (DisposalMethod pg) = Some dm"
    and f: "f = expand_to_canvas (To32Bits (page_dib pg)) (width ldr) (height ldr)
                 (frame_offset (FrameLeft pg)) (frame_offset (FrameTop pg))"
  shows "bmp (fst (bg_next_frame ldr)) =
     (case bmp ldr of
        None \<Rightarrow> Some f
      | Some prev \<Rightarrow>
          if (dm = Unspecified \<or> dm = CompositeOverPrevious) \<and>
             0 < cur_frame (fst (bg_next_frame ldr))
          then Some (Composited f (To24Bits prev))
          else Some f)"
proof (cases "0 < next_frame ldr")
  case False
  with next_frame_bmp [OF n pg refl f] next_frame_cur [OF n] show ?thesis
    by (simp split: option.splits)
next
  case True
  with dm have "disposal_of (DisposalMethod pg) = Some dm" by simp
  then consider
      (comp) "frame_offset (DisposalMethod pg) = 0 \<or> frame_offset (DisposalMethod pg) = 1"
             "dm = Unspecified \<or> dm = CompositeOverPrevious"
    | (direct) "frame_offset (DisposalMethod pg) = 2 \<or> frame_offset (DisposalMethod pg) = 3"
             "dm = RestoreToBackground \<or> dm = RestoreToPrevious"
    by (auto simp: disposal_of_def frame_offset_def split: option.splits if_splits)
  then show ?thesis
  proof cases
    case comp
    with next_frame_bmp [OF n pg refl f] next_frame_cur [OF n] True show ?thesis
      by (auto simp: FreeImage_Composite_def FreeImage_ConvertTo24Bits_def split: option.splits)
  next
    case direct
    with next_frame_bmp [OF n pg refl f] next_frame_cur [OF n] True show ?thesis
      by (auto simp: FreeImage_Composite_def FreeImage_ConvertTo24Bits_def split: option.splits)
  qed
qed

theorem frame_advance_canvas_witness:
  "2 \<le> num_frames second_frame_gif \<and>
   disposal_of (Some 1) = Some CompositeOverPrevious \<and>
   expand_to_canvas (To32Bits (Decoded 2 20 10)) 64 48 5 7 =
     Pasted (Allocated 64 48) (To32Bits (Decoded 2 20 10)) 5 7 \<and>
   bmp second_frame_gif = Some (To32Bits (Decoded 1 64 48)) \<and>
   bmp (fst (bg_next_frame second_frame_gif)) =
     Some (Composited (Pasted (Allocated 64 48) (To32Bits (Decoded 2 20 10)) 5 7)
             (To24Bits (To32Bits (Decoded 1 64 48))))"
proof -
  have n: "2 \<le> num_frames second_frame_gif"
    by (simp add: second_frame_gif_eq loaded_gif_eq)
  have d: "0 < next_frame second_frame_gif \<longrightarrow>
      disposal_of (DisposalMethod \<lparr> page_dib = Decoded 2 20 10, FrameTime = None,
        DisposalMethod = Some 1, FrameLeft = Some 5, FrameTop = Some 7 \<rparr>)
      = Some CompositeOverPrevious"
    by (simp add: disposal_of_def)
  have c: "cur_frame (fst (bg_next_frame second_frame_gif)) = 2"
    using next_frame_cur [OF n] by (simp add: second_frame_gif_eq loaded_gif_eq)
  from frame_advance_canvas [OF n second_frame_gif_page d refl] n c show ?thesis
    by (simp add: second_frame_gif_eq loaded_gif_eq expand_to_canvas_def frame_offset_def
        disposal_of_def)
qed

text \<open>In a reachable state with two frames or more the page of the next frame exists,
  so the advance finds its frame.\<close>

lemma decode_Inl_keeps_source:
  "bg_new_img_decode fi c lp fs ldr = Inl (ldr', evs, rel) \<Longrightarrow>
     num_frames ldr' = num_frames ldr \<and> mbmp ldr' = mbmp ldr"
  by (auto simp: bg_new_img_decode_def Let_def split: if_splits option.splits)

lemma decode_Inr_source:
  "bg_new_img_decode fi c lp fs ldr = Inr (ldr', d, rel) \<Longrightarrow>
     num_frames ldr' = num_frames ldr \<and> mbmp ldr' = mbmp ldr \<and>
     (2 \<le> new_num_frames d \<longrightarrow>
        (\<exists>m. new_mbmp d = Some m \<and> int (length m) = new_num_frames d))"
  by (auto simp: bg_new_img_decode_def Let_def FreeImage_GetPageCount_def
      split: if_splits option.splits)

lemma resume_source_inv:
  "source_inv ldr \<Longrightarrow> source_inv (fst (bg_new_img_resume fi c1 c2 loc ldr))"
proof (cases "bg_new_img_decode fi c1 (fst loc) (snd loc) ldr")
  case (Inl out)
  assume inv: "source_inv ldr"
  obtain l e r where out: "out = (l, e, r)" by (cases out)
  from decode_Inl_keeps_source [OF Inl [unfolded out]] inv have "source_inv l"
    by (simp add: source_inv_def)
  with Inl out show ?thesis by (simp add: bg_new_img_resume_def)
next
  case (Inr x)
  assume inv: "source_inv ldr"
  obtain l d r where x: "x = (l, d, r)" by (cases x)
  from decode_Inr_source [OF Inr [unfolded x]] inv
  have "source_inv (fst (bg_new_img_install c2 d l))"
    by (simp add: source_inv_def bg_new_img_install_def)
  with Inr x show ?thesis
    by (cases "bg_new_img_install c2 d l") (simp add: bg_new_img_resume_def)
qed

lemma next_frame_source_inv: "source_inv ldr \<Longrightarrow> source_inv (fst (bg_next_frame ldr))"
proof (cases "num_frames ldr < 2")
  case True
  assume "source_inv ldr"
  with True show ?thesis by (simp add: bg_next_frame_def)
next
  case False
  assume inv: "source_inv ldr"
  have "num_frames (fst (bg_next_frame ldr)) = num_frames ldr"
    and "mbmp (fst (bg_next_frame ldr)) = mbmp ldr"
    using False by (simp_all add: bg_next_frame_def Let_def)
  with inv show ?thesis by (simp add: source_inv_def)
qed

lemma reachable_source_inv: "reachable ldr \<Longrightarrow> source_inv ldr"
proof (induction rule: reachable.induct)
  case reach_create
  show ?case by (simp add: source_inv_def imv_loader_create_def)
next
  case (reach_load ldr p buf n)
  then show ?case by (simp add: source_inv_def imv_loader_load_def Let_def)
next
  case (reach_new_img ldr fi c1 c2 loc)
  then show ?case by (simp add: resume_source_inv)
next
  case (reach_next_frame ldr)
  then show ?case by (simp add: next_frame_source_inv)
next
  case (reach_time_passed ldr dt)
  then show ?case by (simp add: source_inv_def imv_loader_time_passed_def Let_def)
qed

lemma reachable_next_page:
  assumes r: "reachable ldr" and n: "2 \<le> num_frames ldr"
  shows "\<exists>pg. FreeImage_LockPage (mbmp ldr) (next_frame ldr) = Some pg"
proof -
  from reachable_source_inv [OF r] n obtain m where
    m: "mbmp ldr = Some m" "int (length m) = num_frames ldr"
    by (auto simp: source_inv_def)
  from reachable_frame_inv [OF r] n
  have x: "next_frame ldr = (cur_frame ldr + 1) mod num_frames ldr"
    by (simp add: frame_inv_def)
  from n have "0 \<le> (cur_frame ldr + 1) mod num_frames ldr"
    and "(cur_frame ldr + 1) mod num_frames ldr < num_frames ldr" by simp_all
  with x m show ?thesis by (simp add: FreeImage_LockPage_def)
qed

text \<open>A \<open>DisposalMethod\<close> tag outside 0, 1, 2, 3 on a frame after the first matches no
  case of the \<open>switch\<close>: the canvas stays as it was.\<close>

lemma unknown_disposal_keeps_canvas:
  assumes "2 \<le> num_frames ldr"
    and "FreeImage_LockPage (mbmp ldr) (next_frame ldr) = Some pg"
    and "0 < next_frame ldr"
    and "DisposalMethod pg = Some v" and "v \<notin> {0, 1, 2, 3}"
  shows "bmp (fst (bg_next_frame ldr)) = bmp ldr"
  using next_frame_bmp [OF assms(1,2) refl refl] assms(3-5)
  by (simp add: frame_offset_def)

end
